theory Spec2Isabelle
  imports Complex_Main "HOL-Library.Word" "HOL-Library.Log_Nat"
begin

unbundle bit_operations_syntax

section \<open>Data model\<close>

text \<open>
  The servo test firmware keeps its whole state in global variables and acts on the
  hardware through driver-library calls. The globals become the fields of a record; the
  driver calls that the handlers make are appended, oldest first, to the field \<open>hw\<close>, so
  that every write to a PWM channel, an LED pin or the console is visible and ordered.
  \<open>uint32_t\<close> is \<open>32 word\<close>: \<open>+\<close> and \<open>-\<close> wrap modulo \<open>2 ^ 32\<close> as in C.
\<close>

type_synonym u8 = "8 word"
type_synonym u32 = "32 word"

text \<open>
  \<open>SERVO_1\<close>, \<open>SERVO_2\<close>, the LED ports and the LED pins are macros of
  \<open>APOPHIS_pin_map.h\<close>; only their names are used here.
\<close>

datatype servo = SERVO_1 | SERVO_2

datatype led_port = LED_PORT1 | LED_PORT2

datatype led_pin = LED1_PIN | LED2_PIN | LED3_PIN | LED4_PIN

text \<open>
  A driver call with its arguments. \<open>GPIOPinWrite port pins val\<close> lists the pins selected
  by the mask and the pins among them that are driven high; \<open>UARTprintf fmt args\<close> carries
  the format string and the values of its \<open>%d\<close> arguments.
\<close>

datatype hw_call =
    PWMPulseWidthSet servo u32
  | UARTprintf string "u32 list"
  | UARTCharPutNonBlocking char
  | GPIOPinWrite led_port "led_pin list" "led_pin list"

record state =
  g_SysTickCount :: u32
  g_LED4On :: bool
  g_CharConsole :: char
  g_ConsoleFlag :: bool
  g_Quit :: bool
  g_StartPosition :: u32
  g_EndPosition :: u32
  g_ui32AngleIncrement :: u32
  g_ui32ServoAngle :: u32
  IntMaster :: bool
  hw :: "hw_call list"

definition call :: "hw_call \<Rightarrow> state \<Rightarrow> state" where
  "call c s = s\<lparr>hw := hw s @ [c]\<rparr>"

text \<open>The two bytes \<open>\r\n\<close> that end every line the firmware prints.\<close>

definition CRLF :: string where
  "CRLF = [CHR 0x0D, CHR 0x0A]"

text \<open>The globals as their C initialisers leave them, interrupts off, nothing called yet.\<close>

definition reset_state :: state where
  "reset_state = \<lparr>g_SysTickCount = 0, g_LED4On = False, g_CharConsole = CHR 0x00,
     g_ConsoleFlag = False, g_Quit = False, g_StartPosition = 0, g_EndPosition = 0,
     g_ui32AngleIncrement = 0, g_ui32ServoAngle = 0, IntMaster = False, hw = []\<rparr>"

section \<open>LEDs\<close>

definition TurnOnLED :: "u32 \<Rightarrow> state \<Rightarrow> state" where
  "TurnOnLED LEDNum s =
     (if LEDNum = 1 then call (GPIOPinWrite LED_PORT1 [LED1_PIN] [LED1_PIN]) s
      else if LEDNum = 2 then call (GPIOPinWrite LED_PORT1 [LED2_PIN] [LED2_PIN]) s
      else if LEDNum = 3 then call (GPIOPinWrite LED_PORT2 [LED3_PIN] [LED3_PIN]) s
      else if LEDNum = 4 then call (GPIOPinWrite LED_PORT2 [LED4_PIN] [LED4_PIN]) s
      else call (GPIOPinWrite LED_PORT2 [LED3_PIN, LED4_PIN] [LED3_PIN, LED4_PIN])
             (call (GPIOPinWrite LED_PORT1 [LED1_PIN, LED2_PIN] [LED1_PIN, LED2_PIN]) s))"

definition TurnOffLED :: "u32 \<Rightarrow> state \<Rightarrow> state" where
  "TurnOffLED LEDNum s =
     (if LEDNum = 1 then call (GPIOPinWrite LED_PORT1 [LED1_PIN] []) s
      else if LEDNum = 2 then call (GPIOPinWrite LED_PORT1 [LED2_PIN] []) s
      else if LEDNum = 3 then call (GPIOPinWrite LED_PORT2 [LED3_PIN] []) s
      else if LEDNum = 4 then call (GPIOPinWrite LED_PORT2 [LED4_PIN] []) s
      else call (GPIOPinWrite LED_PORT2 [LED3_PIN, LED4_PIN] [])
             (call (GPIOPinWrite LED_PORT1 [LED1_PIN, LED2_PIN] []) s))"

section \<open>The command dispatcher\<close>

text \<open>
  \<open>Menu\<close> switches on the character received and, whatever the case taken, resets
  \<open>g_ConsoleFlag\<close> at its end. The cases are tried in the order of the source. The four
  servo commands assign \<open>g_ui32ServoAngle\<close> and then run the same three statements, which
  read the angle back from the global: \<open>push_angle\<close>.
\<close>

definition menu_text :: "hw_call list" where
  "menu_text =
     [UARTprintf (''Menu:'' @ CRLF @ ''M - Print this menu.'' @ CRLF) [],
      UARTprintf (''Q - Quit this program.'' @ CRLF) [],
      UARTprintf (''w - Increase servo angle (CW).'' @ CRLF) [],
      UARTprintf (''s - Decrease servo angle (CCW).'' @ CRLF) [],
      UARTprintf (''x - Reset the servo angle.'' @ CRLF) [],
      UARTprintf (''e - Set servo angle furthest CCW.'' @ CRLF) []]"

definition push_angle :: "string \<Rightarrow> state \<Rightarrow> state" where
  "push_angle fmt s =
     call (UARTprintf fmt [g_ui32ServoAngle s])
       (call (PWMPulseWidthSet SERVO_2 (g_ui32ServoAngle s))
         (call (PWMPulseWidthSet SERVO_1 (g_ui32ServoAngle s)) s))"

definition Menu :: "char \<Rightarrow> state \<Rightarrow> state" where
  "Menu charReceived s =
     (let s' =
        (if charReceived = CHR ''Q'' then s\<lparr>g_Quit := True\<rparr>
         else if charReceived = CHR ''M'' then s\<lparr>hw := hw s @ menu_text\<rparr>
         else if charReceived = CHR ''w'' then
           push_angle (''Angle Increase: %d'' @ CRLF)
             (s\<lparr>g_ui32ServoAngle := g_ui32ServoAngle s + g_ui32AngleIncrement s\<rparr>)
         else if charReceived = CHR ''s'' then
           push_angle (''Angle Decrease: %d'' @ CRLF)
             (s\<lparr>g_ui32ServoAngle := g_ui32ServoAngle s - g_ui32AngleIncrement s\<rparr>)
         else if charReceived = CHR ''x'' then
           push_angle (''Start Position: %d'' @ CRLF)
             (s\<lparr>g_ui32ServoAngle := g_StartPosition s\<rparr>)
         else if charReceived = CHR ''e'' then
           push_angle (''End Position: %d'' @ CRLF)
             (s\<lparr>g_ui32ServoAngle := g_EndPosition s\<rparr>)
         else s)
      in s'\<lparr>g_ConsoleFlag := False\<rparr>)"

text \<open>Characters dispatched one after the other, the first of the list first.\<close>

fun dispatch :: "char list \<Rightarrow> state \<Rightarrow> state" where
  "dispatch [] s = s"
| "dispatch (c # cs) s = dispatch cs (Menu c s)"

section \<open>Interrupt handlers\<close>

definition SysTickIntHandler :: "state \<Rightarrow> state" where
  "SysTickIntHandler s =
     (if 5 \<le> g_SysTickCount s then
        (if g_LED4On s then (TurnOffLED 4 s)\<lparr>g_LED4On := False\<rparr>
         else (TurnOnLED 4 s)\<lparr>g_LED4On := True\<rparr>)\<lparr>g_SysTickCount := 0\<rparr>
      else s\<lparr>g_SysTickCount := g_SysTickCount s + 1\<rparr>)"

text \<open>The handler run \<open>n\<close> times in a row, and the LED writes among the driver calls.\<close>

fun ticks :: "nat \<Rightarrow> state \<Rightarrow> state" where
  "ticks 0 s = s"
| "ticks (Suc n) s = ticks n (SysTickIntHandler s)"

fun is_GPIOPinWrite :: "hw_call \<Rightarrow> bool" where
  "is_GPIOPinWrite (GPIOPinWrite p m v) = True"
| "is_GPIOPinWrite _ = False"

definition led_writes :: "state \<Rightarrow> hw_call list" where
  "led_writes s = filter is_GPIOPinWrite (hw s)"

text \<open>
  \<open>ConsoleIntHandler\<close> reads one character from the UART (the argument: the value of
  \<open>UARTCharGetNonBlocking\<close> as the assignment to \<open>g_CharConsole\<close> converts it), echoes it
  and hands it to \<open>Menu\<close>. Reading and clearing the interrupt status touches the UART
  only.
\<close>

definition ConsoleIntHandler :: "char \<Rightarrow> state \<Rightarrow> state" where
  "ConsoleIntHandler rx s =
     (let s1 = s\<lparr>g_CharConsole := rx\<rparr>;
          s2 = call (UARTCharPutNonBlocking (g_CharConsole s1)) s1
      in Menu (g_CharConsole s2) s2)"

section \<open>Waiting for a button\<close>

text \<open>
  \<open>LEFT_BUTTON\<close>, \<open>RIGHT_BUTTON\<close> and \<open>ALL_BUTTONS\<close> are macros of \<open>misc/buttons.h\<close>; the
  function takes them as a parameter. \<open>ButtonsPoll\<close> reads the hardware: the list holds
  the debounced states it returns, one per call. The loops have no bound, so the
  function returns \<open>None\<close> when the polls run out before the loop has ended, and
  otherwise the number of polls made: it returned at poll \<open>polls ! (n - 1)\<close>.
\<close>

record buttons =
  LEFT_BUTTON :: u8
  RIGHT_BUTTON :: u8
  ALL_BUTTONS :: u8

fun wait_while :: "u8 \<Rightarrow> u8 \<Rightarrow> u8 list \<Rightarrow> nat \<Rightarrow> nat option" where
  "wait_while want actualButtonState [] n =
     (if actualButtonState \<noteq> want then None else Some n)"
| "wait_while want actualButtonState (p # polls) n =
     (if actualButtonState \<noteq> want then wait_while want (p AND want) polls (Suc n)
      else Some n)"

definition WaitForButtonPress :: "buttons \<Rightarrow> u8 \<Rightarrow> u8 list \<Rightarrow> nat option" where
  "WaitForButtonPress B desiredButtonState polls =
     (case polls of
        [] \<Rightarrow> None
      | actualButtonState # rest \<Rightarrow>
          if desiredButtonState = LEFT_BUTTON B then
            wait_while (LEFT_BUTTON B) actualButtonState rest 1
          else if desiredButtonState = RIGHT_BUTTON B then
            wait_while (RIGHT_BUTTON B) actualButtonState rest 1
          else if desiredButtonState = ALL_BUTTONS B then
            wait_while (ALL_BUTTONS B) actualButtonState rest 1
          else Some 1)"

text \<open>
  Modelled from the spec: \<open>misc/buttons.h\<close> is not among the sources. The specification
  describes the button state as a bitset over left and right; the two buttons are bits
  0 and 1 here and \<open>ALL_BUTTONS\<close> is their union.
\<close>

definition board_buttons :: buttons where
  "board_buttons = \<lparr>LEFT_BUTTON = 0x01, RIGHT_BUTTON = 0x02, ALL_BUTTONS = 0x03\<rparr>"

section \<open>The main loop and the shutdown\<close>


definition shutdown_message :: hw_call where
  "shutdown_message = UARTprintf (''Dave, I'm scared. Will I dream?'' @ CRLF) []"

datatype stmt =
    Set_Quit
  | Do hw_call
  | Angle_add
  | Angle_sub
  | Angle_start
  | Angle_end
  | Push servo
  | Print_angle string
  | Reset_flag

fun exec :: "stmt \<Rightarrow> state \<Rightarrow> state" where
  "exec Set_Quit s = s\<lparr>g_Quit := True\<rparr>"
| "exec (Do c) s = call c s"
| "exec Angle_add s = s\<lparr>g_ui32ServoAngle := g_ui32ServoAngle s + g_ui32AngleIncrement s\<rparr>"
| "exec Angle_sub s = s\<lparr>g_ui32ServoAngle := g_ui32ServoAngle s - g_ui32AngleIncrement s\<rparr>"
| "exec Angle_start s = s\<lparr>g_ui32ServoAngle := g_StartPosition s\<rparr>"
| "exec Angle_end s = s\<lparr>g_ui32ServoAngle := g_EndPosition s\<rparr>"
| "exec (Push m) s = call (PWMPulseWidthSet m (g_ui32ServoAngle s)) s"
| "exec (Print_angle fmt) s = call (UARTprintf fmt [g_ui32ServoAngle s]) s"
| "exec Reset_flag s = s\<lparr>g_ConsoleFlag := False\<rparr>"

fun run_stmts :: "stmt list \<Rightarrow> state \<Rightarrow> state" where
  "run_stmts [] s = s"
| "run_stmts (st # sts) s = run_stmts sts (exec st s)"

definition Menu_body :: "char \<Rightarrow> stmt list" where
  "Menu_body charReceived =
     (if charReceived = CHR ''Q'' then [Set_Quit]
      else if charReceived = CHR ''M'' then map Do menu_text
      else if charReceived = CHR ''w'' then
        [Angle_add, Push SERVO_1, Push SERVO_2, Print_angle (''Angle Increase: %d'' @ CRLF)]
      else if charReceived = CHR ''s'' then
        [Angle_sub, Push SERVO_1, Push SERVO_2, Print_angle (''Angle Decrease: %d'' @ CRLF)]
      else if charReceived = CHR ''x'' then
        [Angle_start, Push SERVO_1, Push SERVO_2, Print_angle (''Start Position: %d'' @ CRLF)]
      else if charReceived = CHR ''e'' then
        [Angle_end, Push SERVO_1, Push SERVO_2, Print_angle (''End Position: %d'' @ CRLF)]
      else [])
     @ [Reset_flag]"

definition TurnOffLED_body :: "u32 \<Rightarrow> stmt list" where
  "TurnOffLED_body LEDNum =
     (if LEDNum = 1 then [Do (GPIOPinWrite LED_PORT1 [LED1_PIN] [])]
      else if LEDNum = 2 then [Do (GPIOPinWrite LED_PORT1 [LED2_PIN] [])]
      else if LEDNum = 3 then [Do (GPIOPinWrite LED_PORT2 [LED3_PIN] [])]
      else if LEDNum = 4 then [Do (GPIOPinWrite LED_PORT2 [LED4_PIN] [])]
      else [Do (GPIOPinWrite LED_PORT1 [LED1_PIN, LED2_PIN] []),
            Do (GPIOPinWrite LED_PORT2 [LED3_PIN, LED4_PIN] [])])"

text \<open>
  The program counter of \<open>main\<close>: a statement of \<open>main\<close> itself, or the statements left
  of a call and where the call returns to. \<open>main_step\<close> executes one statement. A
  schedule says when \<open>main\<close> steps and when an interrupt arrives; a handler runs only
  while the master interrupt enable is on. \<open>main_run\<close> returns the state in which \<open>main\<close>
  has returned, or \<open>None\<close> when the schedule ends before that: the loop has no bound.
\<close>

datatype ret = Ret_loop | Ret_kill | Ret_led

datatype pc = At_while | At_if | At_Menu | At_kill | At_printf | At_TurnOffLED
  | At_IntMasterDisable | At_return | In_call "stmt list" ret

fun after_call :: "ret \<Rightarrow> pc" where
  "after_call Ret_loop = At_while"
| "after_call Ret_kill = At_printf"
| "after_call Ret_led = At_IntMasterDisable"






text \<open>
  Measures and invariants for the proofs, once \<open>g_Quit\<close> is set: the statements of a
  call that do not assign the servo angle and do not print the shutdown message, the
  program counters that can occur, a bound on the steps \<open>main\<close> still needs, whether the
  shutdown message and the assignment of the final \<open>Menu('x')\<close> are still to come, the
  servo angle at the return when no console byte arrives, how often the message has
  been printed, and the console interrupts of a schedule.
\<close>

fun sets_angle :: "stmt \<Rightarrow> bool" where
  "sets_angle Angle_add = True"
| "sets_angle Angle_sub = True"
| "sets_angle Angle_start = True"
| "sets_angle Angle_end = True"
| "sets_angle _ = False"

definition plain :: "stmt list \<Rightarrow> bool" where
  "plain sts = (\<not> list_ex sets_angle sts \<and> \<not> list_ex (\<lambda>st. st = Do shutdown_message) sts)"




fun bye_due :: "pc \<Rightarrow> nat" where
  "bye_due At_TurnOffLED = 0"
| "bye_due At_IntMasterDisable = 0"
| "bye_due At_return = 0"
| "bye_due (In_call sts Ret_led) = 0"
| "bye_due _ = 1"





section \<open>Servo bring-up and the servo range\<close>

text \<open>
  \<open>InitServoMtrs\<close> keeps the PWM period in a \<open>float\<close> and \<open>main\<close> multiplies it by the
  \<open>double\<close> constant \<open>0.025\<close>. Both are IEEE 754 binary formats with rounding to nearest,
  ties to even. Every value met here is a nonnegative number far from the ends of the
  exponent range, so rounding only shortens the significand: \<open>round_sig p n\<close> rounds the
  natural number \<open>n\<close> to \<open>p\<close> significant bits, and rounding \<open>n / 2 ^ k\<close> is rounding \<open>n\<close>.
  \<^item> A \<open>float\<close> has 24 significant bits. The floats here are whole numbers and are kept as
    such; converting one to \<open>double\<close> is exact.
  \<^item> The \<open>double\<close> nearest to 0.025 is \<open>7205759403792794 / 2 ^ 58\<close> (the bit pattern
    \<open>0x3F9999999999999A\<close>), and a \<open>double\<close> has 53 significant bits:
    \<open>times_0_025 v\<close> is the numerator over \<open>2 ^ 58\<close> of the product \<open>v * 0.025\<close>.
  \<^item> Converting to \<open>uint32_t\<close> drops the fraction; C leaves the conversion undefined
    when the whole part does not fit, which is \<open>None\<close> here.
\<close>

definition round_sig :: "nat \<Rightarrow> nat \<Rightarrow> nat" where
  "round_sig p n =
     (let b = floorlog 2 n in
      if b \<le> p then n
      else
        let s = b - p; q = n div 2 ^ s; r = n mod 2 ^ s
        in (if 2 ^ s < 2 * r \<or> (2 * r = 2 ^ s \<and> odd q) then q + 1 else q) * 2 ^ s)"

definition uint32_to_float :: "u32 \<Rightarrow> nat" where
  "uint32_to_float x = round_sig 24 (unat x)"

definition float_to_uint32 :: "nat \<Rightarrow> u32 option" where
  "float_to_uint32 v = (if v < 2 ^ 32 then Some (word_of_nat v) else None)"

definition times_0_025 :: "nat \<Rightarrow> nat" where
  "times_0_025 v = round_sig 53 (v * 7205759403792794)"

definition double_to_uint32 :: "nat \<Rightarrow> u32 option" where
  "double_to_uint32 N =
     (if N div 2 ^ 58 < 2 ^ 32 then Some (word_of_nat (N div 2 ^ 58)) else None)"

text \<open>
  The value that \<open>InitServoMtrs\<close> returns: the quotient is stored in the \<open>float\<close>
  \<open>speed\<close> and converted back by the \<open>return\<close>. \<open>SERVO_FREQUENCY\<close> is a macro of
  \<open>APOPHIS_pin_map.h\<close> and a parameter here; dividing by zero is undefined. The calls
  that configure the pins and the PWM generator do not bear on the value returned.
\<close>

definition InitServoMtrs :: "u32 \<Rightarrow> u32 \<Rightarrow> u32 option" where
  "InitServoMtrs SERVO_FREQUENCY sysClockSpeed =
     (if SERVO_FREQUENCY = 0 then None
      else float_to_uint32 (uint32_to_float (sysClockSpeed div 64 div SERVO_FREQUENCY)))"

text \<open>
  What \<open>main\<close> does with the period \<open>P\<close> that \<open>InitServoMtrs\<close> returned: store it in the
  \<open>float\<close> \<open>speed\<close>, then compute the start position, the end position, the angle
  increment and the initial servo angle.
\<close>

definition main_servo_range :: "u32 \<Rightarrow> state \<Rightarrow> state option" where
  "main_servo_range P s =
     (let speed = uint32_to_float P in
      case double_to_uint32 (times_0_025 speed) of
        None \<Rightarrow> None
      | Some start \<Rightarrow>
          Some (s\<lparr>g_StartPosition := start,
                  g_EndPosition := start * 5,
                  g_ui32AngleIncrement := (start * 5 - start) div 100,
                  g_ui32ServoAngle := start\<rparr>))"

section \<open>Example states\<close>

text \<open>
  The range that a PWM period of 37500 gives (start 937, end 4685, step 37), with the
  servo at its start position; the same with the servo driven down to 12; a schedule in
  which a tick arrives while \<open>main\<close> runs to its end; and a schedule in which the byte
  \<open>w\<close> arrives inside the final \<open>Menu('x')\<close>, after its first driver call.
\<close>

definition run_state :: state where
  "run_state = reset_state\<lparr>g_StartPosition := 937, g_EndPosition := 4685,
     g_ui32AngleIncrement := 37, g_ui32ServoAngle := 937\<rparr>"

definition low_state :: state where
  "low_state = run_state\<lparr>g_ui32ServoAngle := 12, g_ConsoleFlag := True\<rparr>"



section \<open>Lemmas on the dispatcher\<close>

lemma push_angle_fields:
  "g_SysTickCount (push_angle f s) = g_SysTickCount s"
  "g_LED4On (push_angle f s) = g_LED4On s"
  "g_CharConsole (push_angle f s) = g_CharConsole s"
  "g_ConsoleFlag (push_angle f s) = g_ConsoleFlag s"
  "g_Quit (push_angle f s) = g_Quit s"
  "g_StartPosition (push_angle f s) = g_StartPosition s"
  "g_EndPosition (push_angle f s) = g_EndPosition s"
  "g_ui32AngleIncrement (push_angle f s) = g_ui32AngleIncrement s"
  "g_ui32ServoAngle (push_angle f s) = g_ui32ServoAngle s"
  "IntMaster (push_angle f s) = IntMaster s"
  "hw (push_angle f s) =
     hw s @ [PWMPulseWidthSet SERVO_1 (g_ui32ServoAngle s),
             PWMPulseWidthSet SERVO_2 (g_ui32ServoAngle s),
             UARTprintf f [g_ui32ServoAngle s]]"
  by (simp_all add: push_angle_def call_def)

lemma Menu_fields:
  "g_SysTickCount (Menu c s) = g_SysTickCount s"
  "g_LED4On (Menu c s) = g_LED4On s"
  "g_CharConsole (Menu c s) = g_CharConsole s"
  "g_ConsoleFlag (Menu c s) = False"
  "g_Quit (Menu c s) = (g_Quit s \<or> c = CHR ''Q'')"
  "g_StartPosition (Menu c s) = g_StartPosition s"
  "g_EndPosition (Menu c s) = g_EndPosition s"
  "g_ui32AngleIncrement (Menu c s) = g_ui32AngleIncrement s"
  "IntMaster (Menu c s) = IntMaster s"
  by (simp_all add: Menu_def Let_def push_angle_fields)

lemma led_writes_Menu: "led_writes (Menu c s) = led_writes s"
  by (simp add: led_writes_def Menu_def Let_def push_angle_fields menu_text_def)

lemma Menu_Q: "Menu (CHR ''Q'') s = s\<lparr>g_Quit := True, g_ConsoleFlag := False\<rparr>"
  by (simp add: Menu_def)

lemma Menu_M: "Menu (CHR ''M'') s = s\<lparr>hw := hw s @ menu_text, g_ConsoleFlag := False\<rparr>"
  by (simp add: Menu_def)

lemma Menu_M_lines:
  "Menu (CHR ''M'') s =
     s\<lparr>hw := hw s @
         [UARTprintf (''Menu:'' @ CRLF @ ''M - Print this menu.'' @ CRLF) [],
          UARTprintf (''Q - Quit this program.'' @ CRLF) [],
          UARTprintf (''w - Increase servo angle (CW).'' @ CRLF) [],
          UARTprintf (''s - Decrease servo angle (CCW).'' @ CRLF) [],
          UARTprintf (''x - Reset the servo angle.'' @ CRLF) [],
          UARTprintf (''e - Set servo angle furthest CCW.'' @ CRLF) []],
       g_ConsoleFlag := False\<rparr>"
  by (simp only: Menu_M menu_text_def)

lemma CRLF_bytes: "CRLF = [CHR 0x0D, CHR 0x0A]"
  by (simp only: CRLF_def)

lemma Menu_w:
  "Menu (CHR ''w'') s =
     s\<lparr>g_ui32ServoAngle := g_ui32ServoAngle s + g_ui32AngleIncrement s,
       hw := hw s @
         [PWMPulseWidthSet SERVO_1 (g_ui32ServoAngle s + g_ui32AngleIncrement s),
          PWMPulseWidthSet SERVO_2 (g_ui32ServoAngle s + g_ui32AngleIncrement s),
          UARTprintf (''Angle Increase: %d'' @ CRLF)
            [g_ui32ServoAngle s + g_ui32AngleIncrement s]],
       g_ConsoleFlag := False\<rparr>"
  by (simp add: Menu_def push_angle_def call_def)

lemma Menu_s:
  "Menu (CHR ''s'') s =
     s\<lparr>g_ui32ServoAngle := g_ui32ServoAngle s - g_ui32AngleIncrement s,
       hw := hw s @
         [PWMPulseWidthSet SERVO_1 (g_ui32ServoAngle s - g_ui32AngleIncrement s),
          PWMPulseWidthSet SERVO_2 (g_ui32ServoAngle s - g_ui32AngleIncrement s),
          UARTprintf (''Angle Decrease: %d'' @ CRLF)
            [g_ui32ServoAngle s - g_ui32AngleIncrement s]],
       g_ConsoleFlag := False\<rparr>"
  by (simp add: Menu_def push_angle_def call_def)

lemma Menu_x:
  "Menu (CHR ''x'') s =
     s\<lparr>g_ui32ServoAngle := g_StartPosition s,
       hw := hw s @
         [PWMPulseWidthSet SERVO_1 (g_StartPosition s),
          PWMPulseWidthSet SERVO_2 (g_StartPosition s),
          UARTprintf (''Start Position: %d'' @ CRLF) [g_StartPosition s]],
       g_ConsoleFlag := False\<rparr>"
  by (simp add: Menu_def push_angle_def call_def)

lemma Menu_e:
  "Menu (CHR ''e'') s =
     s\<lparr>g_ui32ServoAngle := g_EndPosition s,
       hw := hw s @
         [PWMPulseWidthSet SERVO_1 (g_EndPosition s),
          PWMPulseWidthSet SERVO_2 (g_EndPosition s),
          UARTprintf (''End Position: %d'' @ CRLF) [g_EndPosition s]],
       g_ConsoleFlag := False\<rparr>"
  by (simp add: Menu_def push_angle_def call_def)

lemma Menu_other:
  "c \<notin> {CHR ''Q'', CHR ''M'', CHR ''w'', CHR ''s'', CHR ''x'', CHR ''e''} \<Longrightarrow>
   Menu c s = s\<lparr>g_ConsoleFlag := False\<rparr>"
  by (simp add: Menu_def)

lemma run_state_fields:
  "g_ui32ServoAngle run_state = 937" "g_ui32AngleIncrement run_state = 37"
  "g_StartPosition run_state = 937" "g_EndPosition run_state = 4685" "hw run_state = []"
  "g_ConsoleFlag run_state = False" "g_Quit run_state = False"
  "g_SysTickCount run_state = 0" "g_LED4On run_state = False"
  by (simp_all add: run_state_def reset_state_def)

lemma low_state_fields:
  "g_ui32ServoAngle low_state = 12" "g_ui32AngleIncrement low_state = 37"
  "g_StartPosition low_state = 937" "g_EndPosition low_state = 4685" "hw low_state = []"
  "g_ConsoleFlag low_state = True" "g_Quit low_state = False"
  by (simp_all add: low_state_def run_state_def reset_state_def)

text \<open>
  C1. Every character dispatched through \<open>Menu\<close>: \<open>M\<close> prints the six lines of the menu,
  each ended by carriage return and line feed, and changes nothing else; \<open>Q\<close> sets \<open>g_Quit\<close>; \<open>w\<close> adds the increment to the servo angle, \<open>s\<close>
  subtracts it, \<open>x\<close> sets the angle to the start position and \<open>e\<close> to the end position,
  each writing the new angle to both PWM channels and printing it; any other character
  changes nothing and calls no driver; and in every case \<open>g_ConsoleFlag\<close> is false
  afterwards.
\<close>

theorem Menu_dispatch:
  "(c = CHR ''M'' \<longrightarrow> Menu c s =
      s\<lparr>hw := hw s @
          [UARTprintf (''Menu:'' @ CRLF @ ''M - Print this menu.'' @ CRLF) [],
           UARTprintf (''Q - Quit this program.'' @ CRLF) [],
           UARTprintf (''w - Increase servo angle (CW).'' @ CRLF) [],
           UARTprintf (''s - Decrease servo angle (CCW).'' @ CRLF) [],
           UARTprintf (''x - Reset the servo angle.'' @ CRLF) [],
           UARTprintf (''e - Set servo angle furthest CCW.'' @ CRLF) []],
        g_ConsoleFlag := False\<rparr>) \<and>
   (c = CHR ''Q'' \<longrightarrow> Menu c s = s\<lparr>g_Quit := True, g_ConsoleFlag := False\<rparr>) \<and>
   (c = CHR ''w'' \<longrightarrow> Menu c s =
      s\<lparr>g_ui32ServoAngle := g_ui32ServoAngle s + g_ui32AngleIncrement s,
        hw := hw s @
          [PWMPulseWidthSet SERVO_1 (g_ui32ServoAngle s + g_ui32AngleIncrement s),
           PWMPulseWidthSet SERVO_2 (g_ui32ServoAngle s + g_ui32AngleIncrement s),
           UARTprintf (''Angle Increase: %d'' @ CRLF)
             [g_ui32ServoAngle s + g_ui32AngleIncrement s]],
        g_ConsoleFlag := False\<rparr>) \<and>
   (c = CHR ''s'' \<longrightarrow> Menu c s =
      s\<lparr>g_ui32ServoAngle := g_ui32ServoAngle s - g_ui32AngleIncrement s,
        hw := hw s @
          [PWMPulseWidthSet SERVO_1 (g_ui32ServoAngle s - g_ui32AngleIncrement s),
           PWMPulseWidthSet SERVO_2 (g_ui32ServoAngle s - g_ui32AngleIncrement s),
           UARTprintf (''Angle Decrease: %d'' @ CRLF)
             [g_ui32ServoAngle s - g_ui32AngleIncrement s]],
        g_ConsoleFlag := False\<rparr>) \<and>
   (c = CHR ''x'' \<longrightarrow> Menu c s =
      s\<lparr>g_ui32ServoAngle := g_StartPosition s,
        hw := hw s @
          [PWMPulseWidthSet SERVO_1 (g_StartPosition s),
           PWMPulseWidthSet SERVO_2 (g_StartPosition s),
           UARTprintf (''Start Position: %d'' @ CRLF) [g_StartPosition s]],
        g_ConsoleFlag := False\<rparr>) \<and>
   (c = CHR ''e'' \<longrightarrow> Menu c s =
      s\<lparr>g_ui32ServoAngle := g_EndPosition s,
        hw := hw s @
          [PWMPulseWidthSet SERVO_1 (g_EndPosition s),
           PWMPulseWidthSet SERVO_2 (g_EndPosition s),
           UARTprintf (''End Position: %d'' @ CRLF) [g_EndPosition s]],
        g_ConsoleFlag := False\<rparr>) \<and>
   (c \<notin> {CHR ''M'', CHR ''Q'', CHR ''w'', CHR ''s'', CHR ''x'', CHR ''e''} \<longrightarrow>
      Menu c s = s\<lparr>g_ConsoleFlag := False\<rparr>) \<and>
   g_ConsoleFlag (Menu c s) = False \<and>
   CRLF = [CHR 0x0D, CHR 0x0A]"
  using Menu_M_lines [of s] Menu_Q [of s] Menu_w [of s] Menu_s [of s] Menu_x [of s]
    Menu_e [of s] Menu_other [of c s] Menu_fields(4) [of c s] CRLF_bytes
  by auto

theorem Menu_dispatch_witness:
  "Menu (CHR ''M'') low_state =
     low_state\<lparr>hw :=
         [UARTprintf (''Menu:'' @ CRLF @ ''M - Print this menu.'' @ CRLF) [],
          UARTprintf (''Q - Quit this program.'' @ CRLF) [],
          UARTprintf (''w - Increase servo angle (CW).'' @ CRLF) [],
          UARTprintf (''s - Decrease servo angle (CCW).'' @ CRLF) [],
          UARTprintf (''x - Reset the servo angle.'' @ CRLF) [],
          UARTprintf (''e - Set servo angle furthest CCW.'' @ CRLF) []],
       g_ConsoleFlag := False\<rparr> \<and>
   Menu (CHR ''Q'') low_state = low_state\<lparr>g_Quit := True, g_ConsoleFlag := False\<rparr> \<and>
   Menu (CHR ''w'') low_state = low_state\<lparr>g_ui32ServoAngle := 49,
      hw := [PWMPulseWidthSet SERVO_1 49, PWMPulseWidthSet SERVO_2 49,
             UARTprintf (''Angle Increase: %d'' @ CRLF) [49]], g_ConsoleFlag := False\<rparr> \<and>
   Menu (CHR ''s'') low_state = low_state\<lparr>g_ui32ServoAngle := 4294967271,
      hw := [PWMPulseWidthSet SERVO_1 4294967271, PWMPulseWidthSet SERVO_2 4294967271,
             UARTprintf (''Angle Decrease: %d'' @ CRLF) [4294967271]],
      g_ConsoleFlag := False\<rparr> \<and>
   Menu (CHR ''x'') low_state = low_state\<lparr>g_ui32ServoAngle := 937,
      hw := [PWMPulseWidthSet SERVO_1 937, PWMPulseWidthSet SERVO_2 937,
             UARTprintf (''Start Position: %d'' @ CRLF) [937]], g_ConsoleFlag := False\<rparr> \<and>
   Menu (CHR ''e'') low_state = low_state\<lparr>g_ui32ServoAngle := 4685,
      hw := [PWMPulseWidthSet SERVO_1 4685, PWMPulseWidthSet SERVO_2 4685,
             UARTprintf (''End Position: %d'' @ CRLF) [4685]], g_ConsoleFlag := False\<rparr> \<and>
   Menu (CHR ''z'') low_state = low_state\<lparr>g_ConsoleFlag := False\<rparr>"
  using Menu_dispatch [of "CHR ''M''" low_state] Menu_dispatch [of "CHR ''Q''" low_state]
    Menu_dispatch [of "CHR ''w''" low_state] Menu_dispatch [of "CHR ''s''" low_state]
    Menu_dispatch [of "CHR ''x''" low_state] Menu_dispatch [of "CHR ''e''" low_state]
    Menu_dispatch [of "CHR ''z''" low_state]
  by (simp add: low_state_fields)

section \<open>The heartbeat\<close>

lemma tick_rule:
  "SysTickIntHandler s =
     (if g_SysTickCount s < 5 then s\<lparr>g_SysTickCount := g_SysTickCount s + 1\<rparr>
      else s\<lparr>hw := hw s @
               [GPIOPinWrite LED_PORT2 [LED4_PIN] (if g_LED4On s then [] else [LED4_PIN])],
             g_LED4On := \<not> g_LED4On s, g_SysTickCount := 0\<rparr>)"
  by (simp add: SysTickIntHandler_def TurnOnLED_def TurnOffLED_def call_def not_le [symmetric])

lemma tick_below:
  "unat (g_SysTickCount s) < 5 \<Longrightarrow>
   SysTickIntHandler s = s\<lparr>g_SysTickCount := g_SysTickCount s + 1\<rparr> \<and>
   unat (g_SysTickCount s + 1) = Suc (unat (g_SysTickCount s))"
proof -
  assume a: "unat (g_SysTickCount s) < 5"
  then have "\<not> 5 \<le> g_SysTickCount s"
    by (simp add: word_le_nat_alt)
  moreover have "unat (g_SysTickCount s + 1) = Suc (unat (g_SysTickCount s))"
    using a by (simp add: unat_word_ariths)
  ultimately show ?thesis by (simp add: SysTickIntHandler_def)
qed

lemma tick_at:
  "unat (g_SysTickCount s) = 5 \<Longrightarrow>
   SysTickIntHandler s =
     s\<lparr>hw := hw s @
         [GPIOPinWrite LED_PORT2 [LED4_PIN] (if g_LED4On s then [] else [LED4_PIN])],
       g_LED4On := \<not> g_LED4On s, g_SysTickCount := 0\<rparr>"
proof -
  assume a: "unat (g_SysTickCount s) = 5"
  then have "5 \<le> g_SysTickCount s"
    by (simp add: word_le_nat_alt)
  then show ?thesis
    by (simp add: SysTickIntHandler_def TurnOnLED_def TurnOffLED_def call_def)
qed

text \<open>
  The counter and the number of LED writes after \<open>n\<close> ticks, from any counter value up to
  the threshold: the handler divides the tick rate by six.
\<close>

lemma ticks_from:
  "unat (g_SysTickCount s) \<le> 5 \<Longrightarrow>
   unat (g_SysTickCount (ticks n s)) = (unat (g_SysTickCount s) + n) mod 6 \<and>
   length (led_writes (ticks n s)) =
     length (led_writes s) + (unat (g_SysTickCount s) + n) div 6 \<and>
   g_LED4On (ticks n s) = (g_LED4On s \<noteq> odd ((unat (g_SysTickCount s) + n) div 6))"
proof (induction n arbitrary: s)
  case 0
  then show ?case by simp
next
  case (Suc n)
  let ?t = "SysTickIntHandler s"
  show ?case
  proof (cases "unat (g_SysTickCount s) = 5")
    case True
    have t: "g_SysTickCount ?t = 0" "g_LED4On ?t = (\<not> g_LED4On s)"
      "length (led_writes ?t) = Suc (length (led_writes s))"
      using tick_at [OF True] by (simp_all add: led_writes_def)
    have "unat (g_SysTickCount ?t) \<le> 5" using t by simp
    from Suc.IH [OF this] show ?thesis
      using t True by (simp add: div_add1_eq)
  next
    case False
    with Suc.prems have lt: "unat (g_SysTickCount s) < 5" by simp
    have t: "unat (g_SysTickCount ?t) = Suc (unat (g_SysTickCount s))"
      "g_LED4On ?t = g_LED4On s" "led_writes ?t = led_writes s"
      using tick_below [OF lt] by (simp_all add: led_writes_def)
    have "unat (g_SysTickCount ?t) \<le> 5" using t lt by simp
    from Suc.IH [OF this] show ?thesis
      using t by simp
  qed
qed

text \<open>
  C3, as the code has it. Started with the counter at zero, the heartbeat handler flips
  the indicator exactly once every six ticks, not five: a tick that finds the counter
  below the threshold 5 only increments it, and the tick that finds it at the threshold
  flips LED 4 and resets the counter without incrementing. After \<open>n\<close> ticks the counter
  is \<open>n mod 6\<close> and the indicator has been written \<open>n div 6\<close> times, each write a flip.
\<close>

theorem heartbeat_period_six:
  "g_SysTickCount s = 0 \<Longrightarrow>
   unat (g_SysTickCount (ticks n s)) = n mod 6 \<and>
   length (led_writes (ticks n s)) = length (led_writes s) + n div 6 \<and>
   g_LED4On (ticks n s) = (g_LED4On s \<noteq> odd (n div 6)) \<and>
   SysTickIntHandler (ticks n s) =
     (if n mod 6 < 5 then (ticks n s)\<lparr>g_SysTickCount := g_SysTickCount (ticks n s) + 1\<rparr>
      else (ticks n s)\<lparr>hw := hw (ticks n s) @
               [GPIOPinWrite LED_PORT2 [LED4_PIN]
                  (if g_LED4On (ticks n s) then [] else [LED4_PIN])],
             g_LED4On := \<not> g_LED4On (ticks n s), g_SysTickCount := 0\<rparr>)"
proof -
  assume z: "g_SysTickCount s = 0"
  have c: "unat (g_SysTickCount (ticks n s)) = n mod 6 \<and>
      length (led_writes (ticks n s)) = length (led_writes s) + n div 6 \<and>
      g_LED4On (ticks n s) = (g_LED4On s \<noteq> odd (n div 6))"
    using ticks_from [of s n] z by simp
  then have "(g_SysTickCount (ticks n s) < 5) = (n mod 6 < 5)"
    by (simp add: word_less_nat_alt)
  with c show ?thesis
    using tick_rule [of "ticks n s"] by simp
qed

theorem heartbeat_period_six_witness:
  "g_SysTickCount reset_state = 0 \<and>
   unat (g_SysTickCount (ticks 15 reset_state)) = 3 \<and>
   length (led_writes (ticks 15 reset_state)) = 2 \<and>
   g_LED4On (ticks 15 reset_state) = False"
  using heartbeat_period_six [of reset_state 15]
  by (simp add: reset_state_def led_writes_def)

text \<open>
  Five ticks from the reset state do not flip the indicator: no LED write has been made
  and the counter stands at 5. The sixth tick makes the first write, and ten ticks have
  still made one write only.
\<close>

theorem heartbeat_five_ticks_counterexample:
  "g_SysTickCount reset_state = 0 \<and>
   length (led_writes (ticks 5 reset_state)) = 0 \<and>
   g_LED4On (ticks 5 reset_state) = g_LED4On reset_state \<and>
   unat (g_SysTickCount (ticks 5 reset_state)) = 5 \<and>
   length (led_writes (ticks 6 reset_state)) = 1 \<and>
   length (led_writes (ticks 10 reset_state)) = 1"
  using ticks_from [of reset_state 5] ticks_from [of reset_state 6]
    ticks_from [of reset_state 10]
  by (simp add: reset_state_def led_writes_def)

section \<open>The console interrupt\<close>

text \<open>
  C4, as the code has it. After every execution of the console receive handler
  \<open>g_CharConsole\<close> holds the byte just received, the byte has been echoed and dispatched
  through \<open>Menu\<close> inside the handler, and \<open>g_ConsoleFlag\<close> is false: the handler does not
  raise the flag, and \<open>Menu\<close> clears it.
\<close>

theorem ConsoleIntHandler_dispatches:
  "ConsoleIntHandler rx s =
     Menu rx (s\<lparr>g_CharConsole := rx, hw := hw s @ [UARTCharPutNonBlocking rx]\<rparr>) \<and>
   g_CharConsole (ConsoleIntHandler rx s) = rx \<and>
   g_ConsoleFlag (ConsoleIntHandler rx s) = False"
  by (simp add: ConsoleIntHandler_def call_def Let_def Menu_fields)

text \<open>
  The handler receives \<open>w\<close> in the running state: the flag is false afterwards, also when
  it was true before.
\<close>

theorem ConsoleIntHandler_flag_counterexample:
  "g_CharConsole (ConsoleIntHandler (CHR ''w'') run_state) = CHR ''w'' \<and>
   g_ConsoleFlag (ConsoleIntHandler (CHR ''w'') run_state) = False \<and>
   g_ConsoleFlag (ConsoleIntHandler (CHR ''w'') (run_state\<lparr>g_ConsoleFlag := True\<rparr>)) = False"
  by (simp add: ConsoleIntHandler_def call_def Let_def Menu_fields)

section \<open>The button gate\<close>

lemma wait_while_Some:
  "wait_while m a ps k = Some n \<Longrightarrow>
   (a = m \<and> n = k) \<or>
   (a \<noteq> m \<and> k < n \<and> n \<le> k + length ps \<and> ps ! (n - k - 1) AND m = m)"
proof (induction ps arbitrary: a k)
  case Nil
  then show ?case by (simp split: if_splits)
next
  case (Cons p ps)
  show ?case
  proof (cases "a = m")
    case True
    with Cons.prems show ?thesis by simp
  next
    case False
    with Cons.prems have r: "wait_while m (p AND m) ps (Suc k) = Some n" by simp
    from Cons.IH [OF r] show ?thesis
    proof
      assume "p AND m = m \<and> n = Suc k"
      with False show ?thesis by simp
    next
      assume b: "p AND m \<noteq> m \<and> Suc k < n \<and> n \<le> Suc k + length ps \<and>
        ps ! (n - Suc k - 1) AND m = m"
      then have "n - k - 1 = Suc (n - Suc k - 1)" by arith
      with b False show ?thesis by simp
    qed
  qed
qed

lemma wait_while_done: "wait_while m m ps k = Some k"
  by (cases ps) simp_all

lemma wait_while_live:
  "i < length ps \<Longrightarrow> ps ! i AND m = m \<Longrightarrow>
   \<exists>n. wait_while m a ps k = Some n \<and> n \<le> k + i + 1"
proof (induction ps arbitrary: a k i)
  case Nil
  then show ?case by simp
next
  case (Cons p ps)
  show ?case
  proof (cases "a = m")
    case True
    then show ?thesis by (simp add: wait_while_done)
  next
    case False
    show ?thesis
    proof (cases i)
      case 0
      with Cons.prems have "p AND m = m" by simp
      with False 0 show ?thesis by (simp add: wait_while_done)
    next
      case (Suc j)
      with Cons.prems have "j < length ps" "ps ! j AND m = m" by simp_all
      from Cons.IH [OF this, of "p AND m" "Suc k"] False Suc show ?thesis by auto
    qed
  qed
qed

text \<open>
  C5, as the code has it. Called with one of the three button masks,
  \<open>WaitForButtonPress\<close> returns only at a poll whose stable state, restricted to the
  requested mask, equals the requested mask: the buttons asked for are all pressed, and
  the other button may be pressed too. It does return: a poll after the first with the
  requested buttons pressed ends the wait at that poll at the latest.
\<close>

theorem WaitForButtonPress_masked:
  assumes "desired \<in> {LEFT_BUTTON B, RIGHT_BUTTON B, ALL_BUTTONS B}"
  shows "(WaitForButtonPress B desired polls = Some n \<longrightarrow>
            0 < n \<and> n \<le> length polls \<and> polls ! (n - 1) AND desired = desired) \<and>
         (0 < i \<and> i < length polls \<and> polls ! i AND desired = desired \<longrightarrow>
            (\<exists>k. WaitForButtonPress B desired polls = Some k \<and> k \<le> i + 1))"
proof (cases polls)
  case Nil
  then show ?thesis by (simp add: WaitForButtonPress_def)
next
  case (Cons p ps)
  have w: "WaitForButtonPress B desired polls = wait_while desired p ps 1"
    using assms Cons by (auto simp: WaitForButtonPress_def)
  have safe: "0 < n \<and> n \<le> length polls \<and> polls ! (n - 1) AND desired = desired"
    if "WaitForButtonPress B desired polls = Some n"
  proof -
    from that w have "wait_while desired p ps 1 = Some n" by simp
    from wait_while_Some [OF this] show ?thesis
    proof
      assume "p = desired \<and> n = 1"
      with Cons show ?thesis by simp
    next
      assume b: "p \<noteq> desired \<and> 1 < n \<and> n \<le> 1 + length ps \<and>
        ps ! (n - 1 - 1) AND desired = desired"
      then have "n - 1 = Suc (n - 1 - 1)" by arith
      with b Cons show ?thesis by simp
    qed
  qed
  have live: "\<exists>k. WaitForButtonPress B desired polls = Some k \<and> k \<le> i + 1"
    if "0 < i \<and> i < length polls \<and> polls ! i AND desired = desired"
  proof -
    from that obtain j where j: "i = Suc j" by (cases i) auto
    with that Cons have "j < length ps" "ps ! j AND desired = desired" by simp_all
    from wait_while_live [OF this, of p 1] w j show ?thesis by simp
  qed
  from safe live show ?thesis by blast
qed

theorem WaitForButtonPress_masked_witness:
  "LEFT_BUTTON board_buttons \<in>
     {LEFT_BUTTON board_buttons, RIGHT_BUTTON board_buttons, ALL_BUTTONS board_buttons} \<and>
   WaitForButtonPress board_buttons (LEFT_BUTTON board_buttons) [0x03, 0x02, 0x01, 0x00] =
     Some 3 \<and>
   [0x03, 0x02, 0x01, 0x00 :: u8] ! (3 - 1) AND LEFT_BUTTON board_buttons =
     LEFT_BUTTON board_buttons \<and>
   (0::nat) < 2 \<and> (2::nat) < length [0x03, 0x02, 0x01, 0x00 :: u8]"
  using WaitForButtonPress_masked [of "LEFT_BUTTON board_buttons" board_buttons
    "[0x03, 0x02, 0x01, 0x00]" 3 2]
  by (simp add: WaitForButtonPress_def board_buttons_def)

text \<open>
  With the left button requested, nothing pressed at the first poll and both buttons
  pressed at the second, the wait ends at the second poll, whose stable state is not
  \<open>LEFT_BUTTON\<close>.
\<close>

theorem WaitForButtonPress_exact_counterexample:
  "WaitForButtonPress board_buttons (LEFT_BUTTON board_buttons) [0x00, 0x03] = Some 2 \<and>
   [0x00, 0x03 :: u8] ! (2 - 1) \<noteq> LEFT_BUTTON board_buttons"
  by (simp add: WaitForButtonPress_def board_buttons_def)

section \<open>Servo arithmetic\<close>

lemma dispatch_w_angle:
  "g_ui32ServoAngle (dispatch (replicate N (CHR ''w'')) s) =
     g_ui32ServoAngle s + word_of_nat N * g_ui32AngleIncrement s"
proof (induction N arbitrary: s)
  case 0
  show ?case by simp
next
  case (Suc N)
  have "g_ui32ServoAngle (dispatch (replicate (Suc N) (CHR ''w'')) s) =
        g_ui32ServoAngle (dispatch (replicate N (CHR ''w'')) (Menu (CHR ''w'') s))"
    by simp
  also have "\<dots> = g_ui32ServoAngle (Menu (CHR ''w'') s) +
        word_of_nat N * g_ui32AngleIncrement (Menu (CHR ''w'') s)"
    by (rule Suc.IH)
  also have "\<dots> = g_ui32ServoAngle s + word_of_nat (Suc N) * g_ui32AngleIncrement s"
    by (simp add: Menu_w algebra_simps)
  finally show ?case .
qed

text \<open>
  C6. Dispatching \<open>w\<close> \<open>N\<close> times from the start position leaves the servo angle at
  \<open>start + N * step\<close> in 32-bit unsigned arithmetic, with no clamping at the end
  position: as a number it is \<open>start + N * step\<close> reduced modulo \<open>2 ^ 32\<close>, and exactly
  \<open>start + N * step\<close> as long as that fits in 32 bits.
\<close>

theorem Menu_w_additive:
  "g_ui32ServoAngle s = g_StartPosition s \<Longrightarrow>
   g_ui32ServoAngle (dispatch (replicate N (CHR ''w'')) s) =
     g_StartPosition s + word_of_nat N * g_ui32AngleIncrement s \<and>
   unat (g_ui32ServoAngle (dispatch (replicate N (CHR ''w'')) s)) =
     (unat (g_StartPosition s) + N * unat (g_ui32AngleIncrement s)) mod 2 ^ 32 \<and>
   (unat (g_StartPosition s) + N * unat (g_ui32AngleIncrement s) < 2 ^ 32 \<longrightarrow>
    unat (g_ui32ServoAngle (dispatch (replicate N (CHR ''w'')) s)) =
      unat (g_StartPosition s) + N * unat (g_ui32AngleIncrement s))"
proof -
  assume a: "g_ui32ServoAngle s = g_StartPosition s"
  have w: "g_ui32ServoAngle (dispatch (replicate N (CHR ''w'')) s) =
     g_StartPosition s + word_of_nat N * g_ui32AngleIncrement s"
    using dispatch_w_angle [of N s] a by simp
  have "unat (g_StartPosition s + word_of_nat N * g_ui32AngleIncrement s) =
     (unat (g_StartPosition s) + N * unat (g_ui32AngleIncrement s)) mod 2 ^ 32"
    by (simp add: unat_word_ariths unat_of_nat mod_add_right_eq mod_mult_left_eq)
  with w show ?thesis by simp
qed

text \<open>102 steps of 37 from 937 pass the end position 4685 and reach 4711.\<close>

theorem Menu_w_additive_witness:
  "g_ui32ServoAngle run_state = g_StartPosition run_state \<and>
   unat (g_StartPosition run_state) + 102 * unat (g_ui32AngleIncrement run_state) < 2 ^ 32 \<and>
   unat (g_ui32ServoAngle (dispatch (replicate 102 (CHR ''w'')) run_state)) = 4711 \<and>
   g_EndPosition run_state = 4685"
  using Menu_w_additive [of run_state 102] by (simp add: run_state_fields)

text \<open>
  C7. From any state, \<open>x\<close> dispatched twice in a row leaves the servo angle at the start
  position after the first and after the second dispatch, and \<open>e\<close> dispatched twice
  leaves it at the end position after each.
\<close>

theorem Menu_x_e_idempotent:
  "g_ui32ServoAngle (Menu (CHR ''x'') s) = g_StartPosition s \<and>
   g_ui32ServoAngle (Menu (CHR ''x'') (Menu (CHR ''x'') s)) = g_StartPosition s \<and>
   g_ui32ServoAngle (dispatch [CHR ''x'', CHR ''x''] s) = g_StartPosition s \<and>
   g_ui32ServoAngle (Menu (CHR ''e'') s) = g_EndPosition s \<and>
   g_ui32ServoAngle (Menu (CHR ''e'') (Menu (CHR ''e'') s)) = g_EndPosition s \<and>
   g_ui32ServoAngle (dispatch [CHR ''e'', CHR ''e''] s) = g_EndPosition s"
  by (simp add: Menu_x Menu_e)

text \<open>
  C9. \<open>s\<close> dispatched when the servo angle is below the increment wraps modulo \<open>2 ^ 32\<close>:
  the new angle is \<open>angle - step + 2 ^ 32\<close>, and that value is written to both PWM
  channels. A single \<open>s\<close> from the start position does so whenever the increment exceeds
  the start position.
\<close>

theorem Menu_s_wraps:
  "g_ui32ServoAngle s < g_ui32AngleIncrement s \<Longrightarrow>
   unat (g_ui32ServoAngle (Menu (CHR ''s'') s)) =
     unat (g_ui32ServoAngle s) + 2 ^ 32 - unat (g_ui32AngleIncrement s) \<and>
   hw (Menu (CHR ''s'') s) = hw s @
     [PWMPulseWidthSet SERVO_1 (g_ui32ServoAngle (Menu (CHR ''s'') s)),
      PWMPulseWidthSet SERVO_2 (g_ui32ServoAngle (Menu (CHR ''s'') s)),
      UARTprintf (''Angle Decrease: %d'' @ CRLF) [g_ui32ServoAngle (Menu (CHR ''s'') s)]] \<and>
   (g_ui32ServoAngle s = g_StartPosition s \<longrightarrow>
    unat (g_ui32ServoAngle (Menu (CHR ''s'') s)) =
      unat (g_StartPosition s) + 2 ^ 32 - unat (g_ui32AngleIncrement s))"
proof -
  assume lt: "g_ui32ServoAngle s < g_ui32AngleIncrement s"
  then have "unat (g_ui32ServoAngle s) < unat (g_ui32AngleIncrement s)"
    by (simp add: word_less_nat_alt)
  moreover have "unat (g_ui32AngleIncrement s) < 2 ^ 32"
    using unsigned_less [of "g_ui32AngleIncrement s"] by simp
  ultimately have "unat (g_ui32ServoAngle s - g_ui32AngleIncrement s) =
     unat (g_ui32ServoAngle s) + 2 ^ 32 - unat (g_ui32AngleIncrement s)"
    by (simp add: unat_sub_if_size word_size)
  then show ?thesis by (auto simp: Menu_s)
qed

text \<open>
  From 12 with step 37 the angle becomes \<open>2 ^ 32 - 25\<close>; so it does from a start position
  of 12.
\<close>

theorem Menu_s_wraps_witness:
  "g_ui32ServoAngle low_state < g_ui32AngleIncrement low_state \<and>
   unat (g_ui32ServoAngle (Menu (CHR ''s'') low_state)) = 4294967271 \<and>
   g_ui32ServoAngle (low_state\<lparr>g_StartPosition := 12\<rparr>) =
     g_StartPosition (low_state\<lparr>g_StartPosition := 12\<rparr>) \<and>
   unat (g_ui32ServoAngle (Menu (CHR ''s'') (low_state\<lparr>g_StartPosition := 12\<rparr>))) =
     4294967271"
  using Menu_s_wraps [of low_state] Menu_s_wraps [of "low_state\<lparr>g_StartPosition := 12\<rparr>"]
  by (simp add: low_state_fields)

section \<open>Frames\<close>

text \<open>
  C10. The heartbeat handler changes only the tick counter, the indicator flag and the
  indicator pin (its one driver call writes LED 4): the servo angle, the quit flag and
  the console character and flag keep their values, like every other field. Dispatching
  any character through \<open>Menu\<close> leaves the tick counter and the indicator flag as they
  were and makes no LED write.
\<close>

theorem heartbeat_dispatch_frame:
  "g_ui32ServoAngle (SysTickIntHandler s) = g_ui32ServoAngle s \<and>
   g_Quit (SysTickIntHandler s) = g_Quit s \<and>
   g_CharConsole (SysTickIntHandler s) = g_CharConsole s \<and>
   g_ConsoleFlag (SysTickIntHandler s) = g_ConsoleFlag s \<and>
   SysTickIntHandler s =
     s\<lparr>g_SysTickCount := g_SysTickCount (SysTickIntHandler s),
       g_LED4On := g_LED4On (SysTickIntHandler s),
       hw := hw s @
         (if g_SysTickCount s < 5 then []
          else [GPIOPinWrite LED_PORT2 [LED4_PIN]
                  (if g_LED4On s then [] else [LED4_PIN])])\<rparr> \<and>
   g_SysTickCount (Menu c s) = g_SysTickCount s \<and>
   g_LED4On (Menu c s) = g_LED4On s \<and>
   led_writes (Menu c s) = led_writes s"
  by (simp add: tick_rule Menu_fields led_writes_Menu)

section \<open>Quitting\<close>


lemma TurnOffLED_body_seq: "run_stmts (TurnOffLED_body n) s = TurnOffLED n s"
  by (simp add: TurnOffLED_body_def TurnOffLED_def)

lemma Menu_body_x:
  "Menu_body (CHR ''x'') =
     [Angle_start, Push SERVO_1, Push SERVO_2, Print_angle (''Start Position: %d'' @ CRLF),
      Reset_flag]"
  by (simp add: Menu_body_def)


















lemma bye_due_after: "bye_due (after_call r) = bye_due (In_call sts r)"
  by (cases r) simp_all


lemma plain_tl_x: "plain (tl (Menu_body (CHR ''x'')))"
  by (simp add: Menu_body_x plain_def)








section \<open>The servo range\<close>

lemma floorlog2_0: "floorlog 2 0 = 0"
  by (simp add: floorlog_def)

lemma floorlog2_step: "0 < n \<Longrightarrow> floorlog 2 n = Suc (floorlog 2 (n div 2))"
  by (subst compute_floorlog) simp

lemma round_sig_small: "floorlog 2 n \<le> p \<Longrightarrow> round_sig p n = n"
  by (simp add: round_sig_def)

lemma round_sig_large:
  assumes "p < floorlog 2 n"
  shows "n div 2 ^ (floorlog 2 n - p) * 2 ^ (floorlog 2 n - p) \<le> round_sig p n"
    and "2 * round_sig p n \<le> 2 * n + 2 ^ (floorlog 2 n - p)"
    and "2 ^ (floorlog 2 n - p) dvd round_sig p n"
    and "round_sig p n \<le> 2 ^ floorlog 2 n"
proof -
  let ?s = "floorlog 2 n - p"
  let ?q = "n div 2 ^ ?s" and ?r = "n mod 2 ^ ?s"
  let ?up = "2 ^ ?s < 2 * ?r \<or> (2 * ?r = 2 ^ ?s \<and> odd ?q)"
  have r: "round_sig p n = (if ?up then ?q + 1 else ?q) * 2 ^ ?s"
    using assms by (simp add: round_sig_def Let_def)
  have n: "n = ?q * 2 ^ ?s + ?r" by (rule div_mult_mod_eq [symmetric])
  show "?q * 2 ^ ?s \<le> round_sig p n" by (simp add: r)
  show "2 ^ ?s dvd round_sig p n" by (simp add: r)
  show "2 * round_sig p n \<le> 2 * n + 2 ^ ?s"
  proof (cases ?up)
    case True
    then have "2 ^ ?s \<le> 2 * ?r" by auto
    moreover have "2 * round_sig p n = 2 * (?q * 2 ^ ?s) + 2 * 2 ^ ?s"
      using True r by (simp add: algebra_simps)
    moreover have "2 * n = 2 * (?q * 2 ^ ?s) + 2 * ?r"
      using n by (metis distrib_left)
    ultimately show ?thesis by linarith
  next
    case False
    then have "round_sig p n = ?q * 2 ^ ?s" using r by simp
    moreover have "?q * 2 ^ ?s \<le> n" by simp
    ultimately show ?thesis by linarith
  qed
  have "0 < n" using assms by (cases n) (simp_all add: floorlog2_0)
  then have "n < 2 ^ floorlog 2 n" using floorlog_bounds [of n 2] by simp
  also have "(2::nat) ^ floorlog 2 n = 2 ^ p * 2 ^ ?s"
    using assms by (simp flip: power_add)
  finally have "?q < 2 ^ p" by (rule less_mult_imp_div_less)
  then have "(if ?up then ?q + 1 else ?q) \<le> 2 ^ p" by simp
  then have "(if ?up then ?q + 1 else ?q) * 2 ^ ?s \<le> 2 ^ p * 2 ^ ?s"
    by (rule mult_le_mono1)
  also have "(2::nat) ^ p * 2 ^ ?s = 2 ^ floorlog 2 n"
    using assms by (simp flip: power_add)
  finally show "round_sig p n \<le> 2 ^ floorlog 2 n" by (simp add: r)
qed

lemma round_sig_dvd_fix:
  assumes "2 ^ (floorlog 2 x - p) dvd x"
  shows "round_sig p x = x"
proof (cases "floorlog 2 x \<le> p")
  case True
  then show ?thesis by (rule round_sig_small)
next
  case False
  from assms have "x mod 2 ^ (floorlog 2 x - p) = 0" by (simp add: mod_eq_0_iff_dvd)
  with False assms show ?thesis by (simp add: round_sig_def Let_def)
qed

lemma round_sig_idem:
  assumes "0 < p"
  shows "round_sig p (round_sig p n) = round_sig p n"
proof (cases "floorlog 2 n \<le> p")
  case True
  then show ?thesis by (simp add: round_sig_small)
next
  case False
  then have l: "p < floorlog 2 n" by simp
  let ?b = "floorlog 2 n" and ?x = "round_sig p n"
  have d: "2 ^ (?b - p) dvd ?x" and u: "?x \<le> 2 ^ ?b"
    using round_sig_large [OF l] by simp_all
  have "2 ^ (floorlog 2 ?x - p) dvd ?x"
  proof (cases "?x < 2 ^ ?b")
    case True
    then have "floorlog 2 ?x \<le> ?b" by (simp add: floorlog_le_iff)
    then have "(2::nat) ^ (floorlog 2 ?x - p) dvd 2 ^ (?b - p)"
      by (intro le_imp_power_dvd) simp
    then show ?thesis using d by (rule dvd_trans)
  next
    case False
    with u have x: "?x = 2 ^ ?b" by simp
    have "?x < 2 ^ Suc ?b" using x by simp
    then have "floorlog 2 ?x \<le> Suc ?b" by (simp only: floorlog_le_iff) simp
    then have "floorlog 2 ?x - p \<le> ?b" using assms by simp
    then have "(2::nat) ^ (floorlog 2 ?x - p) dvd 2 ^ ?b"
      by (rule le_imp_power_dvd)
    with x show ?thesis by simp
  qed
  then show ?thesis by (rule round_sig_dvd_fix)
qed

lemma round_sig_le_pow:
  assumes "n < 2 ^ k"
  shows "round_sig p n \<le> 2 ^ k"
proof (cases "floorlog 2 n \<le> p")
  case True
  with assms show ?thesis by (simp add: round_sig_small)
next
  case False
  then have "round_sig p n \<le> 2 ^ floorlog 2 n"
    using round_sig_large(4) [of p n] by simp
  also have "(2::nat) ^ floorlog 2 n \<le> 2 ^ k"
    using assms by (intro power_increasing) (simp_all add: floorlog_le_iff)
  finally show ?thesis .
qed

lemma dvd_le_div_mult:
  fixes a d N :: nat
  assumes "d dvd a" "a \<le> N" "0 < d"
  shows "a \<le> N div d * d"
proof -
  from assms(1) obtain c where c: "a = d * c" ..
  with assms(2) have "c * d \<le> N" by (simp add: mult.commute)
  then have "c \<le> N div d" using assms(3) by (simp add: less_eq_div_iff_mult_less_eq)
  then have "c * d \<le> N div d * d" by (rule mult_le_mono1)
  with c show ?thesis by (simp add: mult.commute)
qed

lemma times_0_025_floor:
  assumes "v < 2 ^ 32"
  shows "times_0_025 v div 2 ^ 58 = v div 40"
proof -
  define k j where "k = v div 40" and "j = v mod 40"
  let ?N = "v * 7205759403792794"
  let ?R = "round_sig 53 ?N"
  have v: "v = 40 * k + j" "j < 40" by (simp_all add: k_def j_def)
  have k: "k < 107374183" using assms by (simp add: k_def)
  have lo: "k * 288230376151711744 \<le> ?N" using v by linarith
  have "?N = k * 288230376151711760 + j * 7205759403792794"
    by (simp add: v(1) algebra_simps)
  moreover have "j * 7205759403792794 \<le> 39 * 7205759403792794"
    using v(2) by (intro mult_le_mono1) simp
  moreover have "16 * k < 16 * 107374183" using k by simp
  ultimately have hi: "?N + 2147483648 < (k + 1) * 288230376151711744"
    by (simp add: algebra_simps)
  have R: "k * 288230376151711744 \<le> ?R \<and> ?R < (k + 1) * 288230376151711744"
  proof (cases "floorlog 2 ?N \<le> 53")
    case True
    then have "?R = ?N" by (rule round_sig_small)
    with lo hi show ?thesis by linarith
  next
    case False
    then have l: "53 < floorlog 2 ?N" by simp
    let ?s = "floorlog 2 ?N - 53"
    have "?N < 2 ^ 85" using assms by simp
    then have "floorlog 2 ?N \<le> 85" by (simp only: floorlog_le_iff) simp
    then have s: "?s \<le> 32" by simp
    have "(2::nat) ^ ?s dvd 2 ^ 58" using s by (intro le_imp_power_dvd) simp
    then have "2 ^ ?s dvd k * 288230376151711744" by simp
    then have "k * 288230376151711744 \<le> ?N div 2 ^ ?s * 2 ^ ?s"
      using lo by (rule dvd_le_div_mult) simp
    also have "\<dots> \<le> ?R" using l by (rule round_sig_large(1))
    finally have a: "k * 288230376151711744 \<le> ?R" .
    have "(2::nat) ^ ?s \<le> 2 ^ 32" using s by (intro power_increasing) simp_all
    moreover have "2 * ?R \<le> 2 * ?N + 2 ^ ?s" using l by (rule round_sig_large(2))
    ultimately have "2 * ?R \<le> 2 * ?N + 4294967296" by simp
    with hi have "?R < (k + 1) * 288230376151711744" by linarith
    with a show ?thesis by simp
  qed
  have "?R div 288230376151711744 = k"
    using R by (intro div_nat_eqI) (simp_all add: mult.commute)
  then show ?thesis by (simp add: times_0_025_def k_def)
qed

lemma floor_0_025: "\<lfloor>real n * 0.025\<rfloor> = int (n div 40)"
proof -
  have "real n * 0.025 = real n / real 40" by simp
  then show ?thesis by (simp only: floor_divide_of_nat_eq)
qed

lemma InitServoMtrs_value:
  assumes "SERVO_FREQUENCY \<noteq> 0"
  shows "\<exists>v. InitServoMtrs SERVO_FREQUENCY clk = Some (word_of_nat v) \<and> v \<le> 2 ^ 26 \<and>
             round_sig 24 v = v"
proof -
  let ?n = "unat (clk div 64 div SERVO_FREQUENCY)"
  let ?v = "round_sig 24 ?n"
  have "unat clk < 2 ^ 32" using unsigned_less [of clk] by simp
  then have "unat clk div 64 < 2 ^ 26" by simp
  moreover have "?n = unat clk div 64 div unat SERVO_FREQUENCY"
    by (simp add: unat_div)
  moreover have "unat clk div 64 div unat SERVO_FREQUENCY \<le> unat clk div 64"
    by (rule div_le_dividend)
  ultimately have n: "?n < 2 ^ 26" by linarith
  then have v: "?v \<le> 2 ^ 26" by (rule round_sig_le_pow)
  then have "?v < 2 ^ 32" by simp
  then have "InitServoMtrs SERVO_FREQUENCY clk = Some (word_of_nat ?v)"
    using assms by (simp add: InitServoMtrs_def float_to_uint32_def uint32_to_float_def)
  moreover have "round_sig 24 ?v = ?v" by (rule round_sig_idem) simp
  ultimately show ?thesis using v by blast
qed

lemma main_servo_range_value:
  assumes "v \<le> 2 ^ 26" "round_sig 24 v = v"
  shows "main_servo_range (word_of_nat v) s =
     Some (s\<lparr>g_StartPosition := word_of_nat (v div 40),
             g_EndPosition := word_of_nat (v div 40) * 5,
             g_ui32AngleIncrement := (word_of_nat (v div 40) * 5 - word_of_nat (v div 40)) div 100,
             g_ui32ServoAngle := word_of_nat (v div 40)\<rparr>)"
proof -
  have v: "v < 2 ^ 32" using assms(1) by simp
  then have u: "unat (word_of_nat v :: u32) = v" by (simp add: unat_of_nat)
  have f: "uint32_to_float (word_of_nat v) = v"
    using assms(2) u by (simp add: uint32_to_float_def)
  have t: "times_0_025 v div 2 ^ 58 = v div 40" using v by (rule times_0_025_floor)
  have "v div 40 < 2 ^ 32" using v by simp
  with t have "double_to_uint32 (times_0_025 v) = Some (word_of_nat (v div 40))"
    by (simp add: double_to_uint32_def)
  with f show ?thesis by (simp add: main_servo_range_def)
qed

lemma range_arith:
  assumes "v \<le> 2 ^ 26"
  defines "start \<equiv> word_of_nat (v div 40) :: u32"
  shows "unat start = v div 40"
    and "unat (start * 5) = unat start * 5"
    and "unat ((start * 5 - start) div 100) = (unat (start * 5) - unat start) div 100"
    and "(0 < (start * 5 - start) div 100) = (1000 \<le> (word_of_nat v :: u32))"
proof -
  have v: "v < 2 ^ 32" using assms(1) by simp
  have k: "v div 40 < 2 ^ 21" using assms(1) by simp
  then show a: "unat start = v div 40" by (simp add: start_def unat_of_nat)
  show b: "unat (start * 5) = unat start * 5"
    using k a by (simp add: unat_word_ariths)
  have "start \<le> start * 5" using a b by (simp add: word_le_nat_alt)
  then have "unat (start * 5 - start) = unat (start * 5) - unat start"
    by (rule unat_sub)
  then show c: "unat ((start * 5 - start) div 100) = (unat (start * 5) - unat start) div 100"
    by (simp add: unat_div)
  have "(0 < (start * 5 - start) div 100) = (0 < unat ((start * 5 - start) div 100))"
    by (simp add: word_less_nat_alt)
  also have "\<dots> = (0 < (v div 40 * 5 - v div 40) div 100)" using a b c by simp
  also have "\<dots> = (0 < 4 * (v div 40) div 100)" by simp
  also have "\<dots> = (25 \<le> v div 40)" by (simp add: div_greater_zero_iff)
  also have "\<dots> = (1000 \<le> v)" by (simp add: less_eq_div_iff_mult_less_eq)
  also have "\<dots> = (1000 \<le> (word_of_nat v :: u32))"
    using v by (simp add: word_le_nat_alt unat_of_nat)
  finally show "(0 < (start * 5 - start) div 100) = (1000 \<le> (word_of_nat v :: u32))" .
qed

text \<open>
  C2, as the code has it. For every PWM period \<open>P\<close> returned by servo bring-up (which
  returns one whenever \<open>SERVO_FREQUENCY\<close> is not zero), \<open>main\<close> computes
  \<open>start = floor (P * 0.025)\<close>, \<open>end = start * 5\<close> and
  \<open>step = (end - start) / 100\<close> in integer division, none of them wrapping, and the step
  is positive exactly when \<open>P \<ge> 1000\<close>.
\<close>

theorem servo_range_from_period:
  assumes "SERVO_FREQUENCY \<noteq> 0"
  shows "\<exists>P s'. InitServoMtrs SERVO_FREQUENCY sysClockSpeed = Some P \<and>
           main_servo_range P s = Some s' \<and>
           int (unat (g_StartPosition s')) = \<lfloor>real (unat P) * 0.025\<rfloor> \<and>
           g_EndPosition s' = g_StartPosition s' * 5 \<and>
           unat (g_EndPosition s') = unat (g_StartPosition s') * 5 \<and>
           g_ui32AngleIncrement s' = (g_EndPosition s' - g_StartPosition s') div 100 \<and>
           unat (g_ui32AngleIncrement s') =
             (unat (g_EndPosition s') - unat (g_StartPosition s')) div 100 \<and>
           (0 < g_ui32AngleIncrement s') = (1000 \<le> P) \<and>
           g_ui32ServoAngle s' = g_StartPosition s'"
proof -
  from InitServoMtrs_value [OF assms, of sysClockSpeed] obtain v
    where v: "InitServoMtrs SERVO_FREQUENCY sysClockSpeed = Some (word_of_nat v)"
      "v \<le> 2 ^ 26" "round_sig 24 v = v"
    by blast
  have u: "unat (word_of_nat v :: u32) = v" using v(2) by (simp add: unat_of_nat)
  let ?start = "word_of_nat (v div 40) :: u32"
  let ?s' = "s\<lparr>g_StartPosition := ?start, g_EndPosition := ?start * 5,
    g_ui32AngleIncrement := (?start * 5 - ?start) div 100, g_ui32ServoAngle := ?start\<rparr>"
  note a = range_arith [OF v(2)]
  have fl: "int (unat ?start) = \<lfloor>real (unat (word_of_nat v :: u32)) * 0.025\<rfloor>"
    by (simp only: floor_0_025 u a(1))
  show ?thesis
  proof (intro exI conjI)
    show "InitServoMtrs SERVO_FREQUENCY sysClockSpeed = Some (word_of_nat v)"
      by (rule v(1))
    show "main_servo_range (word_of_nat v) s = Some ?s'"
      using v(2,3) by (rule main_servo_range_value)
    show "int (unat (g_StartPosition ?s')) = \<lfloor>real (unat (word_of_nat v :: u32)) * 0.025\<rfloor>"
      using fl by simp
    show "g_EndPosition ?s' = g_StartPosition ?s' * 5" by simp
    show "unat (g_EndPosition ?s') = unat (g_StartPosition ?s') * 5"
      using a(2) by simp
    show "g_ui32AngleIncrement ?s' = (g_EndPosition ?s' - g_StartPosition ?s') div 100"
      by simp
    show "unat (g_ui32AngleIncrement ?s') =
        (unat (g_EndPosition ?s') - unat (g_StartPosition ?s')) div 100"
      using a(3) by simp
    show "(0 < g_ui32AngleIncrement ?s') = (1000 \<le> (word_of_nat v :: u32))"
      using a(4) by simp
    show "g_ui32ServoAngle ?s' = g_StartPosition ?s'" by simp
  qed
qed

lemma round_sig_24_eval:
  "round_sig 24 37500 = 37500" "round_sig 24 40 = 40"
  by (simp_all add: round_sig_def Let_def floorlog2_step floorlog2_0)

lemma times_0_025_eval:
  "times_0_025 37500 div 288230376151711744 = 937"
  "times_0_025 40 div 288230376151711744 = 1"
  by (simp_all add: times_0_025_def round_sig_def Let_def floorlog2_step floorlog2_0)

lemma InitServoMtrs_eval:
  "InitServoMtrs 50 120000000 = Some 37500" "InitServoMtrs 46875 120000000 = Some 40"
  by (simp_all add: InitServoMtrs_def float_to_uint32_def uint32_to_float_def
      round_sig_24_eval)

lemma main_servo_range_eval:
  "main_servo_range 37500 reset_state = Some run_state"
  "main_servo_range 40 reset_state =
     Some (reset_state\<lparr>g_StartPosition := 1, g_EndPosition := 5,
            g_ui32AngleIncrement := 0, g_ui32ServoAngle := 1\<rparr>)"
  by (simp_all add: main_servo_range_def double_to_uint32_def uint32_to_float_def
      round_sig_24_eval times_0_025_eval run_state_def)

text \<open>A clock of 120 MHz and a servo frequency of 50 Hz give the period 37500.\<close>

theorem servo_range_from_period_witness:
  "(50 :: u32) \<noteq> 0 \<and> InitServoMtrs 50 120000000 = Some 37500 \<and>
   main_servo_range 37500 reset_state = Some run_state \<and>
   g_StartPosition run_state = 937 \<and> g_EndPosition run_state = 4685 \<and>
   g_ui32AngleIncrement run_state = 37 \<and> (1000 :: u32) \<le> 37500 \<and>
   0 < g_ui32AngleIncrement run_state"
  using servo_range_from_period [of 50 120000000 reset_state]
  by (simp add: InitServoMtrs_eval main_servo_range_eval run_state_fields)

text \<open>
  A period of 40 (a clock of 120 MHz and a servo frequency of 46875 Hz) gives the start
  position 1, the end position 5 and the step 0.
\<close>

theorem servo_step_zero_counterexample:
  "InitServoMtrs 46875 120000000 = Some 40 \<and>
   main_servo_range 40 reset_state =
     Some (reset_state\<lparr>g_StartPosition := 1, g_EndPosition := 5,
            g_ui32AngleIncrement := 0, g_ui32ServoAngle := 1\<rparr>) \<and>
   (40 :: u32) \<ge> 40"
  by (simp add: InitServoMtrs_eval main_servo_range_eval)

end
